theory Spec2Isabelle
  imports Complex_Main
begin

section \<open>Values, errors and responses\<close>

text \<open>
  The client (class \<open>HttpClient\<close>) reads JSON documents through the platform's
  \<open>JSON.parse\<close> and \<open>Response.json\<close>. A parsed document is a \<open>jsval\<close>; \<open>JUndefined\<close>
  is what reading a missing property gives. A number is a rational: every finite
  double is one, and the client only ever tests a number for being zero and passes
  it on. \<open>JObj\<close> lists the own properties of an object, each key once (the parser has
  resolved repeated keys). Text is a list of code units below 256.
\<close>

datatype jsval =
    JUndefined
  | JNull
  | JBool bool
  | JNum rat
  | JStr string
  | JArr "jsval list"
  | JObj "(string \<times> jsval) list"

text \<open>The truth value of \<open>if (v)\<close> and \<open>!!v\<close>.\<close>

fun truthy :: "jsval \<Rightarrow> bool" where
  "truthy JUndefined = False"
| "truthy JNull = False"
| "truthy (JBool b) = b"
| "truthy (JNum n) = (n \<noteq> 0)"
| "truthy (JStr s) = (s \<noteq> [])"
| "truthy (JArr xs) = True"
| "truthy (JObj kvs) = True"

text \<open>
  \<open>v.k\<close> for a \<open>v\<close> that is neither \<open>null\<close> nor \<open>undefined\<close>, and a key \<open>k\<close> that is
  no array index and no member of a built-in prototype (the client reads
  \<open>jsonrpc\<close>, \<open>error\<close>, \<open>result\<close>, \<open>code\<close>, \<open>message\<close>, \<open>data\<close>, \<open>capabilities\<close>,
  \<open>streaming\<close> and \<open>pushNotifications\<close>).
\<close>

fun get_prop :: "jsval \<Rightarrow> string \<Rightarrow> jsval" where
  "get_prop (JObj kvs) k = (case map_of kvs k of None \<Rightarrow> JUndefined | Some v \<Rightarrow> v)"
| "get_prop v k = JUndefined"

text \<open>\<open>k in v\<close>, for a \<open>v\<close> whose \<open>typeof\<close> is \<open>"object"\<close> and the same keys.\<close>

fun has_prop :: "string \<Rightarrow> jsval \<Rightarrow> bool" where
  "has_prop k (JObj kvs) = (map_of kvs k \<noteq> None)"
| "has_prop k v = False"

text \<open>\<open>typeof v === "object"\<close>: objects, arrays and \<open>null\<close>.\<close>

fun typeof_object :: "jsval \<Rightarrow> bool" where
  "typeof_object JNull = True"
| "typeof_object (JArr xs) = True"
| "typeof_object (JObj kvs) = True"
| "typeof_object v = False"

text \<open>\<open>v ?? null\<close>.\<close>

fun nullish_to_null :: "jsval \<Rightarrow> jsval" where
  "nullish_to_null JUndefined = JNull"
| "nullish_to_null v = v"

text \<open>
  What the platform throws (\<open>fetch\<close>, \<open>Response.text\<close>, \<open>Response.json\<close>, \<open>JSON.parse\<close>,
  a stream read, a property read on \<open>null\<close>) and what \<open>new Error(msg)\<close> makes is a
  \<open>js_error\<close>: an instance of \<open>Error\<close> with its message, or any other thrown value
  with its \<open>String(...)\<close>. \<open>error_text e\<close> is the source's
  \<open>e instanceof Error ? e.message : String(e)\<close>.
\<close>

datatype js_error = ErrorInstance string | ThrownValue string

fun error_text :: "js_error \<Rightarrow> string" where
  "error_text (ErrorInstance m) = m"
| "error_text (ThrownValue s) = s"

text \<open>
  \<open>new RpcError(code, message, data)\<close> (class \<open>RpcError\<close> of A2AClient.ts) is kept with
  its three constructor arguments. The base class stores \<open>String(message)\<close>, the same
  text whenever the argument is a string. The third argument is a JSON value, or the
  error that the client caught and wraps.
\<close>

datatype rpc_data = Data jsval | Cause js_error

datatype thrown =
    Plain js_error
  | RpcError (rpc_code: jsval) (rpc_message: jsval) (rpc_data: rpc_data)

datatype read_end = Done | ReadFailed js_error

text \<open>
  A \<open>Response\<close> as the client uses it: the flag \<open>ok\<close>, the status line, the outcomes
  of \<open>text()\<close> and \<open>json()\<close> (\<open>text_outcome\<close>, \<open>json_outcome\<close>), and \<open>body\<close>: \<open>None\<close> for a null body, else the chunks the
  reader delivers (already decoded to text by \<open>TextDecoderStream\<close>) and how reading
  ends.
\<close>

record response =
  ok :: bool
  status :: nat
  statusText :: string
  text_outcome :: "js_error + string"
  json_outcome :: "js_error + jsval"
  body :: "(string list \<times> read_end) option"

text \<open>A status number inside a template literal: its decimal digits.\<close>

fun show_nat :: "nat \<Rightarrow> string" where
  "show_nat n =
     (if n < 10 then [char_of (48 + n)]
      else show_nat (n div 10) @ [char_of (48 + n mod 10)])"

declare show_nat.simps [simp del]

section \<open>Unary responses: \<open>_handleJsonResponse\<close>\<close>

text \<open>\<open>JSON.parse\<close> is a parameter \<open>parse\<close>; \<open>Inl\<close> is the \<open>SyntaxError\<close> it throws.\<close>

type_synonym json_parse = "string \<Rightarrow> js_error + jsval"

text \<open>\<open>v.k\<close> where \<open>v\<close> may be \<open>null\<close>: a \<open>TypeError\<close> then.\<close>

definition get_member :: "jsval \<Rightarrow> string \<Rightarrow> js_error + jsval" where
  "get_member v k =
     (if v = JNull \<or> v = JUndefined then Inl (ErrorInstance ''TypeError'')
      else Inr (get_prop v k))"

text \<open>The message of the \<open>Error\<close> thrown for a non-success status (lines 115-119).\<close>

definition http_error_message :: "response \<Rightarrow> string \<Rightarrow> string" where
  "http_error_message response responseBody =
     ''HTTP error '' @ show_nat (status response) @ '': '' @ statusText response @
     (if responseBody \<noteq> [] then '' - '' @ responseBody else [])"

text \<open>
  The inner \<open>try\<close> block of the non-success branch (lines 103-111): parse the body
  and, when it has a truthy \<open>error\<close>, throw it as an \<open>RpcError\<close>.
\<close>

definition parse_error_body :: "json_parse \<Rightarrow> string \<Rightarrow> thrown + unit" where
  "parse_error_body parse responseBody =
     (case parse responseBody of
        Inl e \<Rightarrow> Inl (Plain e)
      | Inr parsedError \<Rightarrow>
          (case get_member parsedError ''error'' of
             Inl e \<Rightarrow> Inl (Plain e)
           | Inr errorData \<Rightarrow>
               if truthy errorData
               then Inl (RpcError (get_prop errorData ''code'')
                           (get_prop errorData ''message'')
                           (Data (get_prop errorData ''data'')))
               else Inr ()))"

text \<open>
  The outer \<open>try\<close> block (lines 99-144). In the non-success branch the \<open>catch\<close> of the
  inner block has an empty body, so whatever the inner block threw is dropped and
  the \<open>Error\<close> of line 115 is thrown in both cases.
\<close>

definition try_json_response :: "json_parse \<Rightarrow> response \<Rightarrow> thrown + jsval" where
  "try_json_response parse response =
     (if \<not> ok response then
        (case text_outcome response of
           Inl e \<Rightarrow> Inl (Plain e)
         | Inr responseBody \<Rightarrow>
             (case parse_error_body parse responseBody of
                Inl caught \<Rightarrow>
                  Inl (Plain (ErrorInstance (http_error_message response responseBody)))
              | Inr u \<Rightarrow>
                  Inl (Plain (ErrorInstance (http_error_message response responseBody)))))
      else
        (case text_outcome response of
           Inl e \<Rightarrow> Inl (Plain e)
         | Inr responseBody \<Rightarrow>
             (case parse responseBody of
                Inl e \<Rightarrow> Inl (Plain e)
              | Inr jsonResponse \<Rightarrow>
                  if \<not> typeof_object jsonResponse \<or> jsonResponse = JNull \<or>
                     get_prop jsonResponse ''jsonrpc'' \<noteq> JStr ''2.0''
                  then Inl (RpcError (JNum (- 32603))
                              (JStr ''Invalid JSON-RPC response structure received from server.'')
                              (Data JUndefined))
                  else if truthy (get_prop jsonResponse ''error'')
                  then Inl (RpcError (get_prop (get_prop jsonResponse ''error'') ''code'')
                              (get_prop (get_prop jsonResponse ''error'') ''message'')
                              (Data (get_prop (get_prop jsonResponse ''error'') ''data'')))
                  else Inr (nullish_to_null (get_prop jsonResponse ''result'')))))"

text \<open>
  The method with its \<open>catch\<close> (lines 145-164): an \<open>RpcError\<close> is thrown again, anything
  else is wrapped in an \<open>RpcError\<close> with code -32603. Console output is left out.
\<close>

definition handleJsonResponse :: "json_parse \<Rightarrow> response \<Rightarrow> thrown + jsval" where
  "handleJsonResponse parse response =
     (case try_json_response parse response of
        Inl (RpcError c m d) \<Rightarrow> Inl (RpcError c m d)
      | Inl (Plain e) \<Rightarrow>
          Inl (RpcError (JNum (- 32603))
                 (JStr (''Failed to process response: '' @ error_text e))
                 (Cause e))
      | Inr v \<Rightarrow> Inr v)"

section \<open>Streaming responses: \<open>_handleStreamingResponse\<close>\<close>

text \<open>\<open>buffer.replace(/\r/g, "")\<close>.\<close>

definition remove_cr :: "string \<Rightarrow> string" where
  "remove_cr s = filter (\<lambda>c. c \<noteq> CHR 0x0D) s"

text \<open>
  \<open>s.split("\n\n")\<close>: the pieces between the occurrences of two line feeds, found
  from the left without overlap. The result is never empty (\<open>"".split("\n\n")\<close> is
  \<open>[""]\<close>); the \<open>[]\<close> case of the inner \<open>case\<close> is there for totality only.
\<close>

fun split_blank_line :: "string \<Rightarrow> string list" where
  "split_blank_line [] = [[]]"
| "split_blank_line [c] = [[c]]"
| "split_blank_line (c # d # rest) =
     (if c = CHR 0x0A \<and> d = CHR 0x0A then [] # split_blank_line rest
      else (case split_blank_line (d # rest) of
              [] \<Rightarrow> [[c]]
            | piece # pieces \<Rightarrow> (c # piece) # pieces))"

text \<open>\<open>lines.pop() || ""\<close>: the last piece, \<open>""\<close> for an empty array.\<close>

definition pop_or_empty :: "string list \<Rightarrow> string" where
  "pop_or_empty pieces = (case pieces of [] \<Rightarrow> [] | p # ps \<Rightarrow> last pieces)"

text \<open>
  \<open>s.trim()\<close>: the white space and line terminators of ECMAScript below code unit 256
  are removed from both ends.
\<close>

definition is_space :: "char \<Rightarrow> bool" where
  "is_space c =
     (c = CHR 0x09 \<or> c = CHR 0x0A \<or> c = CHR 0x0B \<or> c = CHR 0x0C \<or> c = CHR 0x0D \<or>
      c = CHR 0x20 \<or> c = CHR 0xA0)"

definition trim :: "string \<Rightarrow> string" where
  "trim s = rev (dropWhile is_space (rev (dropWhile is_space s)))"

text \<open>\<open>s.startsWith(p)\<close>.\<close>

definition startsWith :: "string \<Rightarrow> string \<Rightarrow> bool" where
  "startsWith s p = (take (length p) s = p)"

text \<open>
  What a consumer that drains the generator observes, in order: the values yielded
  and the console output. A run is the list of these events and how it ends: \<open>None\<close>
  when the generator completes, \<open>Some e\<close> when it throws \<open>e\<close>.
\<close>

datatype log_entry =
    HttpErrorLog nat string
  | PartialData string
  | InvalidStructure string
  | ErrorReceived jsval
  | NeitherResultNorError jsval
  | ParseFailed string thrown
  | ReadError thrown
  | Finished
  | NetworkError js_error

datatype event = Yielded jsval | Logged log_entry

type_synonym run = "event list \<times> thrown option"

fun yielded :: "event list \<Rightarrow> jsval list" where
  "yielded [] = []"
| "yielded (Yielded v # evs) = v # yielded evs"
| "yielded (Logged l # evs) = yielded evs"

text \<open>
  The \<open>try\<close> block around one data line (lines 215-247): the events it produces and
  what it throws, if anything. \<open>continue\<close> and the normal end of the block both leave
  with \<open>None\<close>.
\<close>

definition decode_data_line :: "json_parse \<Rightarrow> string \<Rightarrow> run" where
  "decode_data_line parse dataLine =
     (case parse dataLine of
        Inl e \<Rightarrow> ([], Some (Plain e))
      | Inr parsedData \<Rightarrow>
          if \<not> typeof_object parsedData \<or> parsedData = JNull \<or>
             \<not> (has_prop ''jsonrpc'' parsedData \<and> get_prop parsedData ''jsonrpc'' = JStr ''2.0'')
          then ([Logged (InvalidStructure dataLine)], None)
          else if truthy (get_prop parsedData ''error'')
          then ([Logged (ErrorReceived (get_prop parsedData ''error''))],
                Some (RpcError (get_prop (get_prop parsedData ''error'') ''code'')
                        (get_prop (get_prop parsedData ''error'') ''message'')
                        (Data (get_prop (get_prop parsedData ''error'') ''data''))))
          else if get_prop parsedData ''result'' \<noteq> JUndefined
          then ([Yielded (get_prop parsedData ''result'')], None)
          else ([Logged (NeitherResultNorError parsedData)], None))"

text \<open>
  The body of the \<open>for\<close> loop for one message (lines 211-256). The \<open>catch\<close> of line 248
  logs whatever the \<open>try\<close> block threw and does not throw again, so the body only
  produces events.
\<close>

definition process_message :: "json_parse \<Rightarrow> string \<Rightarrow> event list" where
  "process_message parse message =
     (if startsWith message ''data: '' then
        (let dataLine = trim (drop (length ''data: '') message) in
         if dataLine \<noteq> [] then
           (case decode_data_line parse dataLine of
              (evs, None) \<Rightarrow> evs
            | (evs, Some e) \<Rightarrow> evs @ [Logged (ParseFailed dataLine e)])
         else [])
      else [])"

text \<open>
  The \<open>while (true)\<close> loop (lines 195-258) over the reads that are still to come:
  the chunks, then the end of the stream or a failed read.
\<close>

fun read_loop :: "json_parse \<Rightarrow> string \<Rightarrow> string list \<Rightarrow> read_end \<Rightarrow> run" where
  "read_loop parse buffer [] Done =
     (if trim buffer \<noteq> [] then [Logged (PartialData buffer)] else [], None)"
| "read_loop parse buffer [] (ReadFailed e) = ([], Some (Plain e))"
| "read_loop parse buffer (val # chunks) ending =
     (let pieces = split_blank_line (remove_cr (buffer @ val));
          buffer' = pop_or_empty pieces;
          messages = butlast pieces
      in case read_loop parse buffer' chunks ending of
           (evs, r) \<Rightarrow> (concat (map (process_message parse) messages) @ evs, r))"

text \<open>
  The generator (lines 167-269): the check of the response, then the loop inside
  \<open>try\<close>/\<open>catch\<close>/\<open>finally\<close>. The check \<open>!response.ok || !response.body\<close> lets a
  response through exactly when \<open>ok\<close> is set and the body is not null.
\<close>

definition handleStreamingResponse :: "json_parse \<Rightarrow> response \<Rightarrow> run" where
  "handleStreamingResponse parse response =
     (case (if ok response then body response else None) of
        None \<Rightarrow>
          ([Logged (HttpErrorLog (status response)
                     (case text_outcome response of
                        Inl e \<Rightarrow> []
                      | Inr errorText \<Rightarrow>
                          if errorText \<noteq> [] then ''Response: '' @ errorText else []))],
           Some (Plain (ErrorInstance
             (''HTTP error '' @ show_nat (status response) @ '': '' @ statusText response @
              '' - Failed to establish stream.''))))
      | Some (chunks, ending) \<Rightarrow>
          (case read_loop parse [] chunks ending of
             (evs, None) \<Rightarrow> (evs @ [Logged Finished], None)
           | (evs, Some e) \<Rightarrow> (evs @ [Logged (ReadError e), Logged Finished], Some e)))"

section \<open>The public methods\<close>

text \<open>
  \<open>_makeHttpRequest\<close> (lines 56-91), given what \<open>fetchImpl\<close> did with the request: a
  response is handed on, a failure is logged and wrapped in an \<open>RpcError\<close> with code
  -32603. The request body and its id play no part in decoding and are left out.
\<close>

definition makeHttpRequest :: "js_error + response \<Rightarrow> event list \<times> (thrown + response)" where
  "makeHttpRequest fetched =
     (case fetched of
        Inr response \<Rightarrow> ([], Inr response)
      | Inl networkError \<Rightarrow>
          ([Logged (NetworkError networkError)],
           Inl (RpcError (JNum (- 32603))
                  (JStr (''Network error: '' @ error_text networkError))
                  (Cause networkError))))"

text \<open>The \<open>for await\<close> loop of the two streaming methods keeps the items that pass
  \<open>item !== undefined && item !== null\<close>; console output is not touched by it.\<close>

fun passes_item_filter :: "event \<Rightarrow> bool" where
  "passes_item_filter (Yielded item) = (item \<noteq> JUndefined \<and> item \<noteq> JNull)"
| "passes_item_filter (Logged l) = True"

text \<open>\<open>sendTaskSubscribe\<close> (lines 319-346).\<close>

definition sendTaskSubscribe :: "json_parse \<Rightarrow> js_error + response \<Rightarrow> run" where
  "sendTaskSubscribe parse fetched =
     (case makeHttpRequest fetched of
        (logs, Inl e) \<Rightarrow> (logs, Some e)
      | (logs, Inr httpResponse) \<Rightarrow>
          (case handleStreamingResponse parse httpResponse of
             (evs, r) \<Rightarrow> (logs @ filter passes_item_filter evs, r)))"

text \<open>\<open>resubscribeTask\<close> (lines 404-431).\<close>

definition resubscribeTask :: "json_parse \<Rightarrow> js_error + response \<Rightarrow> run" where
  "resubscribeTask parse fetched =
     (case makeHttpRequest fetched of
        (logs, Inl e) \<Rightarrow> (logs, Some e)
      | (logs, Inr httpResponse) \<Rightarrow>
          (case handleStreamingResponse parse httpResponse of
             (evs, r) \<Rightarrow> (logs @ filter passes_item_filter evs, r)))"

section \<open>The agent card: \<open>agentCard\<close> and \<open>supports\<close>\<close>

text \<open>
  The fields of \<open>HttpClient\<close> that the two methods use, and \<open>requests\<close>: the URLs this
  client has handed to \<open>fetchImpl\<close> for the card so far, oldest first. \<open>requests\<close> is not
  a field of the class; it is kept to count the network calls.
\<close>

record client =
  baseUrl :: string
  cachedAgentCard :: jsval
  requests :: "string list"

text \<open>The constructor (lines 39-43).\<close>

definition new_client :: "string \<Rightarrow> client" where
  "new_client url =
     \<lparr>baseUrl = (if url \<noteq> [] \<and> last url = CHR ''/'' then butlast url else url),
      cachedAgentCard = JNull,
      requests = []\<rparr>"

text \<open>
  \<open>fetchImpl\<close> for the card: given the URLs requested before and the URL requested
  now, a response or a thrown error. It may answer each call differently.
\<close>

type_synonym fetch = "string list \<Rightarrow> string \<Rightarrow> js_error + response"

text \<open>The \<open>try\<close> block of \<open>agentCard\<close> up to \<open>response.json()\<close> (lines 279-292).\<close>

definition fetch_card :: "fetch \<Rightarrow> client \<Rightarrow> string \<Rightarrow> js_error + jsval" where
  "fetch_card fetchImpl this cardUrl =
     (case fetchImpl (requests this) cardUrl of
        Inl e \<Rightarrow> Inl e
      | Inr response \<Rightarrow>
          if \<not> ok response
          then Inl (ErrorInstance
                 (''HTTP error '' @ show_nat (status response) @ '' fetching agent card from '' @
                  cardUrl @ '': '' @ statusText response))
          else json_outcome response)"

text \<open>\<open>agentCard\<close> (lines 271-305): the result and the client afterwards. The console
  output of \<open>agentCard\<close> and \<open>supports\<close> is left out.\<close>

definition agentCard :: "fetch \<Rightarrow> client \<Rightarrow> (thrown + jsval) \<times> client" where
  "agentCard fetchImpl this =
     (if truthy (cachedAgentCard this) then (Inr (cachedAgentCard this), this)
      else
        (let cardUrl = baseUrl this @ ''/agent-card'';
             asked = this\<lparr>requests := requests this @ [cardUrl]\<rparr>
         in case fetch_card fetchImpl this cardUrl of
              Inr fetched \<Rightarrow> (Inr fetched, asked\<lparr>cachedAgentCard := fetched\<rparr>)
            | Inl error \<Rightarrow>
                (Inl (RpcError (JNum (- 32603))
                        (JStr (''Could not retrieve agent card: '' @ error_text error))
                        (Cause error)),
                 asked)))"

text \<open>\<open>v?.k\<close>.\<close>

definition optional_prop :: "jsval \<Rightarrow> string \<Rightarrow> jsval" where
  "optional_prop v k = (if v = JNull \<or> v = JUndefined then JUndefined else get_prop v k)"

text \<open>The \<open>switch\<close> of \<open>supports\<close> (lines 438-445), which reads \<open>card.capabilities\<close>.\<close>

definition capability_flag :: "jsval \<Rightarrow> string \<Rightarrow> js_error + bool" where
  "capability_flag agentcard capability =
     (if capability = ''streaming'' then
        (case get_member agentcard ''capabilities'' of
           Inl e \<Rightarrow> Inl e
         | Inr capabilities \<Rightarrow> Inr (truthy (optional_prop capabilities ''streaming'')))
      else if capability = ''pushNotifications'' then
        (case get_member agentcard ''capabilities'' of
           Inl e \<Rightarrow> Inl e
         | Inr capabilities \<Rightarrow> Inr (truthy (optional_prop capabilities ''pushNotifications'')))
      else Inr False)"

text \<open>\<open>supports\<close> (lines 433-453): its \<open>catch\<close> turns every error into \<open>false\<close>.\<close>

definition supports :: "fetch \<Rightarrow> string \<Rightarrow> client \<Rightarrow> (thrown + bool) \<times> client" where
  "supports fetchImpl capability this =
     (case agentCard fetchImpl this of
        (Inl error, this') \<Rightarrow> (Inr False, this')
      | (Inr agentcard, this') \<Rightarrow>
          (case capability_flag agentcard capability of
             Inl error \<Rightarrow> (Inr False, this')
           | Inr flag \<Rightarrow> (Inr flag, this')))"

section \<open>Frames of a stream, as the specification describes them\<close>

text \<open>
  A frame of the specification: a line \<open>data: \<close> followed by a payload, closed by a
  blank line. \<open>one_line\<close> payloads contain no line feed.
\<close>

definition data_line :: "string \<Rightarrow> string" where
  "data_line payload = ''data: '' @ payload"

definition frame_text :: "string \<Rightarrow> string" where
  "frame_text payload = data_line payload @ [CHR 0x0A, CHR 0x0A]"

definition one_line :: "string \<Rightarrow> bool" where
  "one_line payload = (CHR 0x0A \<notin> set payload)"

text \<open>An envelope: an object whose \<open>jsonrpc\<close> property is the string \<open>2.0\<close>.\<close>

definition tagged :: "jsval \<Rightarrow> bool" where
  "tagged v = (typeof_object v \<and> v \<noteq> JNull \<and> get_prop v ''jsonrpc'' = JStr ''2.0'')"

text \<open>
  A payload carries the result \<open>res\<close> when its trimmed text is not empty and parses
  to an envelope with no truthy \<open>error\<close> and with the \<open>result\<close> property \<open>res\<close>.
\<close>

definition carries_result :: "json_parse \<Rightarrow> string \<Rightarrow> jsval \<Rightarrow> bool" where
  "carries_result parse payload res =
     (trim payload \<noteq> [] \<and> res \<noteq> JUndefined \<and>
      (case parse (trim payload) of
         Inl e \<Rightarrow> False
       | Inr v \<Rightarrow> tagged v \<and> \<not> truthy (get_prop v ''error'') \<and> get_prop v ''result'' = res))"

text \<open>
  A payload fails the validation of the envelope's shape when its trimmed text
  does not parse or parses to something that is no envelope.
\<close>

definition malformed :: "json_parse \<Rightarrow> string \<Rightarrow> bool" where
  "malformed parse payload =
     (case parse (trim payload) of Inl e \<Rightarrow> True | Inr v \<Rightarrow> \<not> tagged v)"

section \<open>Sample documents\<close>

text \<open>
  The examples below run the client on these documents. \<open>sample_parse\<close> gives, for
  each of them, the value \<open>JSON.parse\<close> returns; the examples give it no other JSON
  text, and the text \<open>not json\<close> makes \<open>JSON.parse\<close> throw.
\<close>

definition doc_bare :: string where
  \<open>doc_bare = ''{"jsonrpc":"2.0","id":1}''\<close>

definition doc_error :: string where
  \<open>doc_error = ''{"jsonrpc":"2.0","id":1,"error":{"code":-32001,"message":"Task not found"}}''\<close>

definition val_bare :: jsval where
  "val_bare = JObj [(''jsonrpc'', JStr ''2.0''), (''id'', JNum 1)]"

definition val_error :: jsval where
  "val_error = JObj [(''jsonrpc'', JStr ''2.0''), (''id'', JNum 1),
     (''error'', JObj [(''code'', JNum (- 32001)), (''message'', JStr ''Task not found'')])]"

definition doc_working :: string where
  \<open>doc_working = ''{"jsonrpc":"2.0","id":"x","result":{"state":"working"}}''\<close>

definition val_working :: jsval where
  "val_working = JObj [(''jsonrpc'', JStr ''2.0''), (''id'', JStr ''x''),
     (''result'', JObj [(''state'', JStr ''working'')])]"

definition doc_completed :: string where
  \<open>doc_completed = ''{"jsonrpc":"2.0","id":"x","result":{"state":"completed"}}''\<close>

definition val_completed :: jsval where
  "val_completed = JObj [(''jsonrpc'', JStr ''2.0''), (''id'', JStr ''x''),
     (''result'', JObj [(''state'', JStr ''completed'')])]"

definition doc_boom :: string where
  \<open>doc_boom = ''{"jsonrpc":"2.0","id":"x","error":{"code":1,"message":"boom"}}''\<close>

definition val_boom :: jsval where
  "val_boom = JObj [(''jsonrpc'', JStr ''2.0''), (''id'', JStr ''x''),
     (''error'', JObj [(''code'', JNum 1), (''message'', JStr ''boom'')])]"

definition doc_null_result :: string where
  \<open>doc_null_result = ''{"jsonrpc":"2.0","id":"x","result":null}''\<close>

definition val_null_result :: jsval where
  "val_null_result = JObj [(''jsonrpc'', JStr ''2.0''), (''id'', JStr ''x''), (''result'', JNull)]"

definition doc_untagged :: string where
  \<open>doc_untagged = ''{"id":"x","result":{"state":"working"}}''\<close>

definition val_untagged :: jsval where
  "val_untagged = JObj [(''id'', JStr ''x''), (''result'', JObj [(''state'', JStr ''working'')])]"

text \<open>A message with an \<open>event:\<close> line before its \<open>data:\<close> line.\<close>

definition event_message :: string where
  \<open>event_message = ''event: update\<newline>data: '' @ doc_working\<close>

text \<open>The text of a stream of three frames: that message, a frame whose envelope
  has no \<open>jsonrpc\<close> tag, and a frame with a result.\<close>

definition mixed_stream :: string where
  "mixed_stream =
     event_message @ [CHR 0x0A, CHR 0x0A] @
     (''data: '' @ doc_untagged @ [CHR 0x0A, CHR 0x0A]) @
     (''data: '' @ doc_completed @ [CHR 0x0A, CHR 0x0A])"

definition sample_documents :: "(string \<times> jsval) list" where
  "sample_documents =
     [(doc_bare, val_bare), (doc_error, val_error), (doc_working, val_working),
      (doc_completed, val_completed), (doc_boom, val_boom),
      (doc_null_result, val_null_result), (doc_untagged, val_untagged)]"

definition sample_parse :: json_parse where
  "sample_parse s =
     (case map_of sample_documents s of
        Some v \<Rightarrow> Inr v
      | None \<Rightarrow> Inl (ErrorInstance ''Unexpected token''))"

definition unary_response :: "bool \<Rightarrow> nat \<Rightarrow> string \<Rightarrow> string \<Rightarrow> response" where
  "unary_response k st line b =
     \<lparr>ok = k, status = st, statusText = line, text_outcome = Inr b,
      json_outcome = sample_parse b, body = None\<rparr>"

definition stream_response :: "string list \<Rightarrow> response" where
  "stream_response chunks =
     \<lparr>ok = True, status = 200, statusText = ''OK'', text_outcome = Inr (concat chunks),
      json_outcome = sample_parse (concat chunks), body = Some (chunks, Done)\<rparr>"

text \<open>A card with capabilities, and a server that answers every card request with
  the JSON text \<open>null\<close>.\<close>

definition val_card :: jsval where
  "val_card = JObj [(''name'', JStr ''agent''),
     (''capabilities'', JObj [(''streaming'', JBool True), (''pushNotifications'', JBool False)])]"

definition card_fetch :: "jsval \<Rightarrow> fetch" where
  "card_fetch agentcard earlier url =
     Inr \<lparr>ok = True, status = 200, statusText = ''OK'', text_outcome = Inl (ErrorInstance ''body used''),
          json_outcome = Inr agentcard, body = None\<rparr>"

definition failing_fetch :: fetch where
  "failing_fetch earlier url = Inl (ErrorInstance ''fetch failed'')"

section \<open>Properties of the unary decoder\<close>

lemma handleJsonResponse_not_ok:
  assumes "\<not> ok r" and "text_outcome r = Inr b"
  shows "handleJsonResponse parse r =
           Inl (RpcError (JNum (- 32603))
                  (JStr (''Failed to process response: '' @ http_error_message r b))
                  (Cause (ErrorInstance (http_error_message r b))))"
  using assms
  by (simp add: handleJsonResponse_def try_json_response_def split: sum.splits)

lemma sample_parse_bare: "sample_parse doc_bare = Inr val_bare"
  by (simp add: sample_parse_def sample_documents_def)

lemmas doc_defs =
  doc_bare_def doc_error_def doc_working_def doc_completed_def doc_boom_def
  doc_null_result_def doc_untagged_def

lemma sample_parse_error: "sample_parse doc_error = Inr val_error"
  by (simp add: sample_parse_def sample_documents_def doc_defs)

text \<open>
  Claim C2, as amended. A response with \<open>ok\<close> set whose body parses to an object
  tagged \<open>jsonrpc: "2.0"\<close> with neither a \<open>result\<close> nor an \<open>error\<close> property is
  decoded to \<open>null\<close>: the method returns, it does not raise (line 144,
  \<open>jsonResponse.result ?? null\<close>).
\<close>

theorem unary_bare_envelope_returns_null:
  assumes "ok r" and "text_outcome r = Inr b" and "parse b = Inr (JObj props)"
    and "map_of props ''jsonrpc'' = Some (JStr ''2.0'')"
    and "map_of props ''result'' = None" and "map_of props ''error'' = None"
  shows "handleJsonResponse parse r = Inr JNull"
  using assms by (simp add: handleJsonResponse_def try_json_response_def)

theorem unary_bare_envelope_returns_null_witness:
  "ok (unary_response True 204 ''No Content'' doc_bare) \<and>
   text_outcome (unary_response True 204 ''No Content'' doc_bare) = Inr doc_bare \<and>
   sample_parse doc_bare = Inr (JObj [(''jsonrpc'', JStr ''2.0''), (''id'', JNum 1)]) \<and>
   handleJsonResponse sample_parse (unary_response True 204 ''No Content'' doc_bare) = Inr JNull"
  using unary_bare_envelope_returns_null
    [of "unary_response True 204 ''No Content'' doc_bare" doc_bare sample_parse
        "[(''jsonrpc'', JStr ''2.0''), (''id'', JNum 1)]"]
  by (simp add: unary_response_def sample_parse_bare val_bare_def)

text \<open>
  Claim C2 as the specification states it fails: on status 200 with the body
  \<open>{"jsonrpc":"2.0","id":1}\<close>, which has neither \<open>result\<close> nor \<open>error\<close>, nothing is
  raised and the value \<open>null\<close> is returned.
\<close>

theorem unary_bare_envelope_raises_counterexample:
  "sample_parse doc_bare = Inr val_bare \<and>
   get_prop val_bare ''jsonrpc'' = JStr ''2.0'' \<and>
   get_prop val_bare ''result'' = JUndefined \<and>
   get_prop val_bare ''error'' = JUndefined \<and>
   handleJsonResponse sample_parse (unary_response True 200 ''OK'' doc_bare) = Inr JNull"
  by (simp add: sample_parse_bare handleJsonResponse_def try_json_response_def
      unary_response_def val_bare_def)

text \<open>
  Claim C7. A response with \<open>ok\<close> set whose body parses to an object tagged
  \<open>jsonrpc: "2.0"\<close> with an \<open>error\<close> object (a \<open>code\<close>, a string \<open>message\<close>, perhaps
  \<open>data\<close>) makes the method raise an \<open>RpcError\<close> with exactly the peer's code, message
  and data (\<open>undefined\<close> data when the peer sent none). The code raised is the peer's:
  unless the peer itself sent -32603, the error raised does not carry -32603.
\<close>

theorem unary_peer_error_verbatim:
  assumes "ok r" and "text_outcome r = Inr b" and "parse b = Inr (JObj props)"
    and "map_of props ''jsonrpc'' = Some (JStr ''2.0'')"
    and "map_of props ''error'' = Some (JObj eprops)"
    and "map_of eprops ''code'' = Some c"
    and "map_of eprops ''message'' = Some (JStr m)"
  shows "handleJsonResponse parse r =
           Inl (RpcError c (JStr m) (Data (get_prop (JObj eprops) ''data''))) \<and>
         (c \<noteq> JNum (- 32603) \<longrightarrow>
            (\<forall>e. handleJsonResponse parse r = Inl e \<longrightarrow> rpc_code e \<noteq> JNum (- 32603)))"
  using assms by (simp add: handleJsonResponse_def try_json_response_def)

theorem unary_peer_error_verbatim_witness:
  "ok (unary_response True 200 ''OK'' doc_error) \<and>
   text_outcome (unary_response True 200 ''OK'' doc_error) = Inr doc_error \<and>
   sample_parse doc_error = Inr val_error \<and>
   handleJsonResponse sample_parse (unary_response True 200 ''OK'' doc_error) =
     Inl (RpcError (JNum (- 32001)) (JStr ''Task not found'') (Data JUndefined))"
  using unary_peer_error_verbatim
    [of "unary_response True 200 ''OK'' doc_error" doc_error sample_parse
        "[(''jsonrpc'', JStr ''2.0''), (''id'', JNum 1),
          (''error'', JObj [(''code'', JNum (- 32001)), (''message'', JStr ''Task not found'')])]"
        "[(''code'', JNum (- 32001)), (''message'', JStr ''Task not found'')]"
        "JNum (- 32001)" "''Task not found''"]
  by (simp add: unary_response_def sample_parse_error val_error_def)

text \<open>
  Claim C3, evaluated where it fails. On status 404 with the body
  \<open>{"jsonrpc":"2.0","id":1,"error":{"code":-32001,"message":"Task not found"}}\<close> the
  peer's error (code -32001) is thrown inside the inner \<open>try\<close>, dropped by its empty
  \<open>catch\<close>, and the method raises a local error with code -32603 instead, whose message
  holds the status and the raw body.
\<close>

theorem unary_not_ok_peer_error_replaced:
  \<open>sample_parse doc_error = Inr val_error \<and>
   truthy (get_prop val_error ''error'') \<and>
   parse_error_body sample_parse doc_error =
     Inl (RpcError (JNum (- 32001)) (JStr ''Task not found'') (Data JUndefined)) \<and>
   handleJsonResponse sample_parse (unary_response False 404 ''Not Found'' doc_error) =
     Inl (RpcError (JNum (- 32603))
            (JStr (''Failed to process response: HTTP error 404: Not Found - '' @ doc_error))
            (Cause (ErrorInstance (''HTTP error 404: Not Found - '' @ doc_error))))\<close>
proof -
  have digits: "show_nat 404 = ''404''"
    by code_simp
  have nonempty: "doc_error \<noteq> []"
    by (simp add: doc_error_def)
  have inner: "parse_error_body sample_parse doc_error =
      Inl (RpcError (JNum (- 32001)) (JStr ''Task not found'') (Data JUndefined))"
    by (simp add: parse_error_body_def sample_parse_error get_member_def val_error_def)
  have outer: "handleJsonResponse sample_parse (unary_response False 404 ''Not Found'' doc_error) =
      Inl (RpcError (JNum (- 32603))
            (JStr (''Failed to process response: HTTP error 404: Not Found - '' @ doc_error))
            (Cause (ErrorInstance (''HTTP error 404: Not Found - '' @ doc_error))))"
    using handleJsonResponse_not_ok
      [of "unary_response False 404 ''Not Found'' doc_error" doc_error sample_parse]
    by (simp add: unary_response_def http_error_message_def digits nonempty)
  show ?thesis
    using inner outer by (simp add: sample_parse_error val_error_def)
qed

section \<open>Splitting a stream into messages\<close>

lemma split_blank_line_nonempty: "split_blank_line xs \<noteq> []"
  by (induction xs rule: split_blank_line.induct) (auto split: list.splits)

lemma split_blank_line_single: "split_blank_line xs = [p] \<Longrightarrow> p = xs"
proof (induction xs arbitrary: p rule: split_blank_line.induct)
  case 1
  then show ?case by simp
next
  case (2 c)
  then show ?case by simp
next
  case (3 c d rest)
  show ?case
  proof (cases "c = CHR 0x0A \<and> d = CHR 0x0A")
    case True
    then show ?thesis
      using "3.prems" split_blank_line_nonempty[of rest] by simp
  next
    case False
    obtain q qs where sp: "split_blank_line (d # rest) = q # qs"
      using split_blank_line_nonempty[of "d # rest"]
      by (cases "split_blank_line (d # rest)") auto
    from False sp "3.prems" have "qs = []" and "p = c # q"
      by auto
    with "3.IH"(2)[OF False, of q] sp show ?thesis
      by simp
  qed
qed

lemma split_blank_line_append:
  "split_blank_line (xs @ ys) =
     butlast (split_blank_line xs) @ split_blank_line (last (split_blank_line xs) @ ys)"
proof (induction xs rule: split_blank_line.induct)
  case 1
  then show ?case by simp
next
  case (2 c)
  then show ?case by simp
next
  case (3 c d rest)
  show ?case
  proof (cases "c = CHR 0x0A \<and> d = CHR 0x0A")
    case True
    then show ?thesis
      using "3.IH"(1)[OF True] split_blank_line_nonempty[of rest] by simp
  next
    case False
    obtain q qs where sp: "split_blank_line (d # rest) = q # qs"
      using split_blank_line_nonempty[of "d # rest"]
      by (cases "split_blank_line (d # rest)") auto
    show ?thesis
    proof (cases qs)
      case Nil
      with sp have "q = d # rest"
        using split_blank_line_single by simp
      with False sp Nil have whole: "split_blank_line (c # d # rest) = [c # d # rest]"
        by simp
      show ?thesis
        unfolding whole by simp
    next
      case (Cons q' qs')
      from False sp have whole: "split_blank_line (c # d # rest) = (c # q) # qs"
        by simp
      from sp Cons "3.IH"(2)[OF False]
      have tail: "split_blank_line (d # rest @ ys) =
          q # butlast qs @ split_blank_line (last qs @ ys)"
        by simp
      from False have "split_blank_line ((c # d # rest) @ ys) =
          (case split_blank_line (d # rest @ ys) of
             [] \<Rightarrow> [[c]] | piece # pieces \<Rightarrow> (c # piece) # pieces)"
        by (simp only: append_Cons split_blank_line.simps(3) if_False)
      also have "\<dots> = (c # q) # butlast qs @ split_blank_line (last qs @ ys)"
        by (simp only: tail list.case)
      also have "\<dots> = butlast (split_blank_line (c # d # rest)) @
          split_blank_line (last (split_blank_line (c # d # rest)) @ ys)"
        unfolding whole using Cons by simp
      finally show ?thesis .
    qed
  qed
qed

lemma split_blank_line_chars:
  "p \<in> set (split_blank_line xs) \<Longrightarrow> set p \<subseteq> set xs"
proof (induction xs arbitrary: p rule: split_blank_line.induct)
  case 1
  then show ?case by simp
next
  case (2 c)
  then show ?case by simp
next
  case (3 c d rest)
  show ?case
  proof (cases "c = CHR 0x0A \<and> d = CHR 0x0A")
    case True
    with "3.prems" "3.IH"(1) show ?thesis
      by auto
  next
    case False
    obtain q qs where sp: "split_blank_line (d # rest) = q # qs"
      using split_blank_line_nonempty[of "d # rest"]
      by (cases "split_blank_line (d # rest)") auto
    from False sp "3.prems" have "p = c # q \<or> p \<in> set qs"
      by auto
    with "3.IH"(2)[OF False] sp show ?thesis
      by fastforce
  qed
qed

lemma split_blank_line_last:
  "split_blank_line (last (split_blank_line xs)) = [last (split_blank_line xs)]"
proof -
  have "butlast (split_blank_line xs) @ split_blank_line (last (split_blank_line xs)) =
        butlast (split_blank_line xs) @ [last (split_blank_line xs)]"
    using split_blank_line_append[of xs "[]"] split_blank_line_nonempty[of xs]
    by simp
  then show ?thesis
    by simp
qed

lemma remove_cr_append: "remove_cr (xs @ ys) = remove_cr xs @ remove_cr ys"
  by (simp add: remove_cr_def)

lemma remove_cr_last_piece:
  "remove_cr (last (split_blank_line (remove_cr xs))) = last (split_blank_line (remove_cr xs))"
proof -
  have "last (split_blank_line (remove_cr xs)) \<in> set (split_blank_line (remove_cr xs))"
    using split_blank_line_nonempty by simp
  then have "set (last (split_blank_line (remove_cr xs))) \<subseteq> set (remove_cr xs)"
    by (rule split_blank_line_chars)
  then have "CHR 0x0D \<notin> set (last (split_blank_line (remove_cr xs)))"
    by (auto simp: remove_cr_def)
  then have "filter (\<lambda>ch. ch \<noteq> CHR 0x0D) (last (split_blank_line (remove_cr xs))) =
      last (split_blank_line (remove_cr xs))"
    by (intro filter_True) auto
  then show ?thesis
    by (simp add: remove_cr_def)
qed

lemma pop_or_empty_last: "pop_or_empty (split_blank_line xs) = last (split_blank_line xs)"
  using split_blank_line_nonempty[of xs]
  by (cases "split_blank_line xs") (simp_all add: pop_or_empty_def)

lemma read_loop_one_chunk:
  "read_loop parse b [v] e =
     (concat (map (process_message parse) (butlast (split_blank_line (remove_cr (b @ v))))) @
        fst (read_loop parse (last (split_blank_line (remove_cr (b @ v)))) [] e),
      snd (read_loop parse (last (split_blank_line (remove_cr (b @ v)))) [] e))"
  by (simp add: pop_or_empty_last Let_def split: prod.splits)

lemma read_loop_concat:
  assumes "remove_cr b = b" and "split_blank_line b = [b]"
  shows "read_loop parse b chunks e = read_loop parse b [concat chunks] e"
  using assms
proof (induction chunks arbitrary: b)
  case Nil
  then show ?case
    by (simp add: pop_or_empty_def split: prod.splits)
next
  case (Cons c cs)
  let ?p1 = "split_blank_line (remove_cr (b @ c))"
  let ?b1 = "last ?p1"
  let ?p2 = "split_blank_line (remove_cr (?b1 @ concat cs))"
  have b1_cr: "remove_cr ?b1 = ?b1"
    by (rule remove_cr_last_piece)
  have b1_split: "split_blank_line ?b1 = [?b1]"
    by (rule split_blank_line_last)
  have ih: "read_loop parse ?b1 cs e = read_loop parse ?b1 [concat cs] e"
    using Cons.IH[OF b1_cr b1_split] .
  have whole: "split_blank_line (remove_cr (b @ concat (c # cs))) = butlast ?p1 @ ?p2"
  proof -
    have "remove_cr (b @ concat (c # cs)) = remove_cr (b @ c) @ remove_cr (concat cs)"
      by (simp add: remove_cr_append)
    then have "split_blank_line (remove_cr (b @ concat (c # cs))) =
        butlast ?p1 @ split_blank_line (?b1 @ remove_cr (concat cs))"
      using split_blank_line_append[of "remove_cr (b @ c)" "remove_cr (concat cs)"] by simp
    moreover have "?b1 @ remove_cr (concat cs) = remove_cr (?b1 @ concat cs)"
      using b1_cr by (simp add: remove_cr_append)
    ultimately show ?thesis
      by simp
  qed
  have p2_ne: "?p2 \<noteq> []"
    by (rule split_blank_line_nonempty)
  have lhs: "read_loop parse b (c # cs) e =
      (concat (map (process_message parse) (butlast ?p1)) @ fst (read_loop parse ?b1 cs e),
       snd (read_loop parse ?b1 cs e))"
    by (simp add: pop_or_empty_last Let_def split: prod.splits)
  have rhs: "read_loop parse b [concat (c # cs)] e =
      (concat (map (process_message parse) (butlast ?p1 @ butlast ?p2)) @
         fst (read_loop parse (last ?p2) [] e),
       snd (read_loop parse (last ?p2) [] e))"
    unfolding read_loop_one_chunk whole using p2_ne
    by (simp add: butlast_append)
  have mid: "read_loop parse ?b1 [concat cs] e =
      (concat (map (process_message parse) (butlast ?p2)) @
         fst (read_loop parse (last ?p2) [] e),
       snd (read_loop parse (last ?p2) [] e))"
    by (rule read_loop_one_chunk)
  show ?case
    by (simp only: lhs rhs ih mid fst_conv snd_conv map_append concat_append append_assoc)
qed

lemma split_blank_line_frame:
  "CHR 0x0A \<notin> set m \<Longrightarrow>
   split_blank_line (m @ CHR 0x0A # CHR 0x0A # rest) = m # split_blank_line rest"
proof (induction m)
  case Nil
  then show ?case by simp
next
  case (Cons c m)
  then have c: "c \<noteq> CHR 0x0A" and ih: "split_blank_line (m @ CHR 0x0A # CHR 0x0A # rest) = m # split_blank_line rest"
    by auto
  obtain d tl where shape: "m @ CHR 0x0A # CHR 0x0A # rest = d # tl"
    by (cases m) auto
  have "split_blank_line (c # d # tl) =
      (case split_blank_line (d # tl) of [] \<Rightarrow> [[c]] | piece # pieces \<Rightarrow> (c # piece) # pieces)"
    using c by simp
  then show ?case
    using ih shape by simp
qed

lemma split_blank_line_frames:
  "\<forall>p \<in> set ps. one_line p \<Longrightarrow>
   split_blank_line (concat (map frame_text ps)) = map data_line ps @ [[]]"
proof (induction ps)
  case Nil
  then show ?case by simp
next
  case (Cons p ps)
  then have "CHR 0x0A \<notin> set (data_line p)"
    by (simp add: one_line_def data_line_def)
  then have "split_blank_line
        (data_line p @ CHR 0x0A # CHR 0x0A # concat (map frame_text ps)) =
      data_line p # split_blank_line (concat (map frame_text ps))"
    by (rule split_blank_line_frame)
  moreover have "concat (map frame_text (p # ps)) =
      data_line p @ CHR 0x0A # CHR 0x0A # concat (map frame_text ps)"
    by (simp only: list.map concat.simps frame_text_def[of p] append_assoc append_Cons append_Nil)
  ultimately show ?case
    using Cons by simp
qed

lemma process_message_data:
  "process_message parse (data_line p) =
     (if trim p \<noteq> [] then
        (case decode_data_line parse (trim p) of
           (evs, None) \<Rightarrow> evs
         | (evs, Some e) \<Rightarrow> evs @ [Logged (ParseFailed (trim p) e)])
      else [])"
  by (simp add: process_message_def startsWith_def Let_def data_line_def)

lemma trim_empty: "trim [] = []"
  by (simp add: trim_def)

lemma stream_of_frames:
  assumes "ok r" and "body r = Some (chunks, Done)"
    and "remove_cr (concat chunks) = concat (map frame_text ps)"
    and "\<forall>p \<in> set ps. one_line p"
  shows "handleStreamingResponse parse r =
           (concat (map (\<lambda>p. process_message parse (data_line p)) ps) @ [Logged Finished], None)"
proof -
  have start: "remove_cr [] = []" "split_blank_line [] = [[]]"
    by (simp_all add: remove_cr_def)
  have "read_loop parse [] chunks Done = read_loop parse [] [concat chunks] Done"
    using start by (rule read_loop_concat)
  also have "\<dots> = (concat (map (\<lambda>p. process_message parse (data_line p)) ps), None)"
    unfolding read_loop_one_chunk
    using assms(3) split_blank_line_frames[OF assms(4)]
    by (simp add: trim_empty comp_def)
  finally show ?thesis
    using assms(1,2) by (simp add: handleStreamingResponse_def)
qed

lemma yielded_append: "yielded (xs @ ys) = yielded xs @ yielded ys"
  by (induction xs rule: yielded.induct) simp_all

lemma tagged_structure:
  "(\<not> typeof_object v \<or> v = JNull \<or>
     \<not> (has_prop ''jsonrpc'' v \<and> get_prop v ''jsonrpc'' = JStr ''2.0'')) = (\<not> tagged v)"
  by (cases v) (auto simp: tagged_def split: option.splits)

lemma decode_data_line_tagged:
  "decode_data_line parse dataLine =
     (case parse dataLine of
        Inl e \<Rightarrow> ([], Some (Plain e))
      | Inr parsedData \<Rightarrow>
          if \<not> tagged parsedData
          then ([Logged (InvalidStructure dataLine)], None)
          else if truthy (get_prop parsedData ''error'')
          then ([Logged (ErrorReceived (get_prop parsedData ''error''))],
                Some (RpcError (get_prop (get_prop parsedData ''error'') ''code'')
                        (get_prop (get_prop parsedData ''error'') ''message'')
                        (Data (get_prop (get_prop parsedData ''error'') ''data''))))
          else if get_prop parsedData ''result'' \<noteq> JUndefined
          then ([Yielded (get_prop parsedData ''result'')], None)
          else ([Logged (NeitherResultNorError parsedData)], None))"
  by (simp only: decode_data_line_def tagged_structure)

lemma process_message_result:
  assumes "carries_result parse p res"
  shows "process_message parse (data_line p) = [Yielded res]"
proof -
  from assms obtain v where v: "parse (trim p) = Inr v" "tagged v"
    "\<not> truthy (get_prop v ''error'')" "get_prop v ''result'' = res" "res \<noteq> JUndefined"
    and ne: "trim p \<noteq> []"
    by (auto simp: carries_result_def split: sum.splits)
  have "decode_data_line parse (trim p) = ([Yielded res], None)"
    using v by (simp add: decode_data_line_tagged)
  then show ?thesis
    using ne by (simp add: process_message_data)
qed

lemma process_message_malformed:
  assumes "malformed parse p"
  shows "process_message parse (data_line p) =
           (if trim p = [] then []
            else case parse (trim p) of
                   Inl e \<Rightarrow> [Logged (ParseFailed (trim p) (Plain e))]
                 | Inr v \<Rightarrow> [Logged (InvalidStructure (trim p))])"
proof (cases "parse (trim p)")
  case (Inl e)
  then show ?thesis
    by (simp add: process_message_data decode_data_line_tagged)
next
  case (Inr v)
  with assms have "\<not> tagged v"
    by (simp add: malformed_def)
  with Inr show ?thesis
    by (simp add: process_message_data decode_data_line_tagged)
qed

lemma yielded_results:
  "list_all2 (carries_result parse) ps rs \<Longrightarrow>
   yielded (concat (map (\<lambda>p. process_message parse (data_line p)) ps)) = rs"
  by (induction ps rs rule: list_all2_induct)
     (simp_all add: yielded_append process_message_result)

lemma results_events:
  "list_all2 (carries_result parse) ps rs \<Longrightarrow>
   concat (map (\<lambda>p. process_message parse (data_line p)) ps) = map Yielded rs"
  by (induction ps rs rule: list_all2_induct)
     (simp_all add: process_message_result)

text \<open>
  Claim C6, as amended. Take a stream that, carriage returns aside, is \<open>N\<close> frames
  one after another, each beginning with \<open>data: \<close> followed by a payload without
  line feed and a blank line, delivered in any chunks and then closed. If one
  frame's payload does not parse or parses to something that is no envelope tagged
  \<open>jsonrpc: "2.0"\<close>, and every other frame carries a result, the decoder yields exactly
  the \<open>N - 1\<close> results, in order, and completes without raising. The malformed frame
  leaves a console entry (invalid structure, or failed parse) unless its payload is
  blank; a blank payload is skipped with no console entry.
\<close>

theorem streaming_one_malformed_frame_skipped:
  assumes "ok r" and "body r = Some (chunks, Done)"
    and "remove_cr (concat chunks) = concat (map frame_text (before @ bad # after))"
    and "\<forall>p \<in> set (before @ bad # after). one_line p"
    and "list_all2 (carries_result parse) before results_before"
    and "list_all2 (carries_result parse) after results_after"
    and "malformed parse bad"
  shows "yielded (fst (handleStreamingResponse parse r)) = results_before @ results_after \<and>
         length (yielded (fst (handleStreamingResponse parse r))) =
           length (before @ bad # after) - 1 \<and>
         snd (handleStreamingResponse parse r) = None \<and>
         (trim bad \<noteq> [] \<longrightarrow>
            Logged (InvalidStructure (trim bad)) \<in> set (fst (handleStreamingResponse parse r)) \<or>
            (\<exists>e. Logged (ParseFailed (trim bad) (Plain e))
                   \<in> set (fst (handleStreamingResponse parse r)))) \<and>
         (trim bad = [] \<longrightarrow>
            fst (handleStreamingResponse parse r) =
              map Yielded results_before @ map Yielded results_after @ [Logged Finished])"
proof -
  let ?pm = "\<lambda>p. process_message parse (data_line p)"
  have run: "handleStreamingResponse parse r =
      (map Yielded results_before @ ?pm bad @ map Yielded results_after @ [Logged Finished], None)"
    using stream_of_frames[OF assms(1-4), of parse]
    by (simp add: results_events[OF assms(5)] results_events[OF assms(6)])
  have bad_yields: "yielded (?pm bad) = []"
    using process_message_malformed[OF assms(7)] by (simp split: sum.splits)
  have yielded_map: "\<And>rs. yielded (map Yielded rs) = rs"
    subgoal for rs by (induction rs) simp_all
    done
  have ys: "yielded (fst (handleStreamingResponse parse r)) = results_before @ results_after"
    by (simp add: run yielded_append bad_yields yielded_map)
  have len: "length results_before = length before" "length results_after = length after"
    using assms(5,6) by (simp_all add: list_all2_lengthD)
  have logged: "trim bad \<noteq> [] \<longrightarrow>
            Logged (InvalidStructure (trim bad)) \<in> set (fst (handleStreamingResponse parse r)) \<or>
            (\<exists>e. Logged (ParseFailed (trim bad) (Plain e))
                   \<in> set (fst (handleStreamingResponse parse r)))"
    using process_message_malformed[OF assms(7)] by (auto simp: run split: sum.splits)
  have blank: "trim bad = [] \<longrightarrow>
            fst (handleStreamingResponse parse r) =
              map Yielded results_before @ map Yielded results_after @ [Logged Finished]"
    using process_message_malformed[OF assms(7)] by (simp add: run)
  have ending: "snd (handleStreamingResponse parse r) = None"
    by (simp add: run)
  have count: "length (yielded (fst (handleStreamingResponse parse r))) =
      length (before @ bad # after) - 1"
    using ys len by simp
  show ?thesis
    by (intro conjI ys count ending logged blank)
qed

section \<open>Runs of the streaming decoder\<close>

lemma sample_parse_working: "sample_parse doc_working = Inr val_working"
  by (simp add: sample_parse_def sample_documents_def doc_defs)

lemma sample_parse_completed: "sample_parse doc_completed = Inr val_completed"
  by (simp add: sample_parse_def sample_documents_def doc_defs)

lemma sample_parse_boom: "sample_parse doc_boom = Inr val_boom"
  by (simp add: sample_parse_def sample_documents_def doc_defs)

lemma sample_parse_null_result: "sample_parse doc_null_result = Inr val_null_result"
  by (simp add: sample_parse_def sample_documents_def doc_defs)

lemma sample_parse_untagged: "sample_parse doc_untagged = Inr val_untagged"
  by (simp add: sample_parse_def sample_documents_def doc_defs)

lemma sample_parse_not_json: "sample_parse ''not json'' = Inl (ErrorInstance ''Unexpected token'')"
  by (simp add: sample_parse_def sample_documents_def doc_defs)

lemma trim_docs:
  "trim doc_working = doc_working" "trim doc_completed = doc_completed"
  "trim doc_boom = doc_boom" "trim doc_null_result = doc_null_result"
  "trim doc_untagged = doc_untagged" "trim ''not json'' = ''not json''"
  by (simp_all add: trim_def doc_defs is_space_def)

lemma one_line_docs:
  "one_line doc_working" "one_line doc_completed" "one_line doc_boom"
  "one_line doc_null_result" "one_line doc_untagged" "one_line ''not json''"
  by (simp_all add: one_line_def doc_defs)

lemma docs_nonempty:
  "doc_working \<noteq> []" "doc_completed \<noteq> []" "doc_boom \<noteq> []" "doc_null_result \<noteq> []"
  "doc_untagged \<noteq> []"
  by (simp_all add: doc_defs)

lemma carries_working:
  "carries_result sample_parse doc_working (JObj [(''state'', JStr ''working'')])"
  by (simp add: carries_result_def trim_docs docs_nonempty sample_parse_working val_working_def
      tagged_def)

lemma carries_completed:
  "carries_result sample_parse doc_completed (JObj [(''state'', JStr ''completed'')])"
  by (simp add: carries_result_def trim_docs docs_nonempty sample_parse_completed
      val_completed_def tagged_def)

lemma malformed_untagged: "malformed sample_parse doc_untagged"
  by (simp add: malformed_def trim_docs sample_parse_untagged val_untagged_def tagged_def)

lemma malformed_not_json: "malformed sample_parse ''not json''"
  by (simp add: malformed_def trim_docs sample_parse_not_json)

lemma process_message_boom:
  "process_message sample_parse (data_line doc_boom) =
     [Logged (ErrorReceived (JObj [(''code'', JNum 1), (''message'', JStr ''boom'')])),
      Logged (ParseFailed doc_boom (RpcError (JNum 1) (JStr ''boom'') (Data JUndefined)))]"
  by (simp add: process_message_data trim_docs docs_nonempty decode_data_line_tagged
      sample_parse_boom val_boom_def tagged_def)

theorem streaming_one_malformed_frame_skipped_witness:
  "ok (stream_response [frame_text doc_working, frame_text doc_untagged, frame_text doc_completed]) \<and>
   malformed sample_parse doc_untagged \<and>
   yielded (fst (handleStreamingResponse sample_parse
     (stream_response [frame_text doc_working, frame_text doc_untagged, frame_text doc_completed]))) =
     [JObj [(''state'', JStr ''working'')], JObj [(''state'', JStr ''completed'')]] \<and>
   snd (handleStreamingResponse sample_parse
     (stream_response [frame_text doc_working, frame_text doc_untagged, frame_text doc_completed])) =
     None \<and>
   Logged (InvalidStructure doc_untagged) \<in> set (fst (handleStreamingResponse sample_parse
     (stream_response [frame_text doc_working, frame_text doc_untagged, frame_text doc_completed])))"
proof -
  let ?chunks = "[frame_text doc_working, frame_text doc_untagged, frame_text doc_completed]"
  let ?r = "stream_response ?chunks"
  have h1: "ok ?r" and h2: "body ?r = Some (?chunks, Done)"
    by (simp_all add: stream_response_def)
  have cr: "remove_cr (frame_text doc_working) = frame_text doc_working"
      "remove_cr (frame_text doc_untagged) = frame_text doc_untagged"
      "remove_cr (frame_text doc_completed) = frame_text doc_completed"
    by (simp_all add: remove_cr_def frame_text_def data_line_def doc_defs)
  have h3: "remove_cr (concat ?chunks) =
      concat (map frame_text ([doc_working] @ doc_untagged # [doc_completed]))"
    by (simp add: remove_cr_append cr)
  have h4: "\<forall>p \<in> set ([doc_working] @ doc_untagged # [doc_completed]). one_line p"
    by (simp add: one_line_docs)
  have h5: "list_all2 (carries_result sample_parse) [doc_working] [JObj [(''state'', JStr ''working'')]]"
    by (simp add: carries_working)
  have h6: "list_all2 (carries_result sample_parse) [doc_completed] [JObj [(''state'', JStr ''completed'')]]"
    by (simp add: carries_completed)
  have ne: "Logged (ParseFailed doc_untagged (Plain e)) \<notin>
      set (fst (handleStreamingResponse sample_parse ?r))" for e
    using stream_of_frames[OF h1 h2 h3 h4, of sample_parse]
      process_message_malformed[OF malformed_untagged]
      process_message_result[OF carries_working] process_message_result[OF carries_completed]
    by (simp add: trim_docs docs_nonempty sample_parse_untagged)
  show ?thesis
    using streaming_one_malformed_frame_skipped[OF h1 h2 h3 h4 h5 h6 malformed_untagged] h1 ne
    by (simp add: malformed_untagged trim_docs docs_nonempty)
qed


lemma process_message_working:
  "process_message sample_parse (data_line doc_working) = [Yielded (JObj [(''state'', JStr ''working'')])]"
  by (rule process_message_result[OF carries_working])

lemma process_message_completed:
  "process_message sample_parse (data_line doc_completed) =
     [Yielded (JObj [(''state'', JStr ''completed'')])]"
  by (rule process_message_result[OF carries_completed])

text \<open>
  Claim C6 as the specification states it fails on frames that do not begin with
  \<open>data: \<close>: of the three frames of \<open>mixed_stream\<close> the first has an \<open>event:\<close> line
  before a data line that carries a result, the second is untagged and the third
  carries a result, yet one result is yielded, not two. And a frame with a blank
  payload, which does not parse, is skipped without any console entry.
\<close>

theorem streaming_malformed_frame_count_counterexample:
  "mixed_stream =
     (''event: update'' @ [CHR 0x0A] @ data_line doc_working) @ [CHR 0x0A, CHR 0x0A] @
     frame_text doc_untagged @ frame_text doc_completed \<and>
   carries_result sample_parse doc_working (JObj [(''state'', JStr ''working'')]) \<and>
   malformed sample_parse doc_untagged \<and>
   carries_result sample_parse doc_completed (JObj [(''state'', JStr ''completed'')]) \<and>
   handleStreamingResponse sample_parse
     (stream_response [mixed_stream]) =
     ([Logged (InvalidStructure doc_untagged),
       Yielded (JObj [(''state'', JStr ''completed'')]),
       Logged Finished], None) \<and>
   malformed sample_parse [] \<and>
   handleStreamingResponse sample_parse
     (stream_response [frame_text doc_working, frame_text [], frame_text doc_completed]) =
     ([Yielded (JObj [(''state'', JStr ''working'')]),
       Yielded (JObj [(''state'', JStr ''completed'')]),
       Logged Finished], None)"
proof -
  have shape: "mixed_stream =
     (''event: update'' @ [CHR 0x0A] @ data_line doc_working) @ [CHR 0x0A, CHR 0x0A] @
     frame_text doc_untagged @ frame_text doc_completed"
    by (simp add: mixed_stream_def event_message_def frame_text_def data_line_def)
  have parts: "mixed_stream = (event_message @ [CHR 0x0A, CHR 0x0A]) @
      concat (map frame_text [doc_untagged, doc_completed])"
    by (simp add: mixed_stream_def frame_text_def data_line_def)
  have first: "split_blank_line (event_message @ [CHR 0x0A, CHR 0x0A]) = [event_message, []]"
    by (simp add: event_message_def doc_defs)
  have rest: "split_blank_line (concat (map frame_text [doc_untagged, doc_completed])) =
      map data_line [doc_untagged, doc_completed] @ [[]]"
    by (rule split_blank_line_frames) (simp add: one_line_docs)
  have pieces: "split_blank_line mixed_stream =
      [event_message, data_line doc_untagged, data_line doc_completed, []]"
    unfolding parts
    using split_blank_line_append[of "event_message @ [CHR 0x0A, CHR 0x0A]"
        "concat (map frame_text [doc_untagged, doc_completed])"] rest
    by (simp add: first)
  have cr: "remove_cr mixed_stream = mixed_stream"
    by (simp add: remove_cr_def mixed_stream_def event_message_def doc_defs)
  have pm_event: "process_message sample_parse event_message = []"
    by (simp add: process_message_def startsWith_def event_message_def)
  have pm_untagged: "process_message sample_parse (data_line doc_untagged) =
      [Logged (InvalidStructure doc_untagged)]"
    using process_message_malformed[OF malformed_untagged]
    by (simp add: trim_docs docs_nonempty sample_parse_untagged)
  have loop: "read_loop sample_parse [] [mixed_stream] Done =
      ([Logged (InvalidStructure doc_untagged),
        Yielded (JObj [(''state'', JStr ''completed'')])], None)"
    unfolding read_loop_one_chunk append_Nil cr pieces
    by (simp add: pm_event pm_untagged process_message_completed trim_empty)
  have run1: "handleStreamingResponse sample_parse (stream_response [mixed_stream]) =
     ([Logged (InvalidStructure doc_untagged),
       Yielded (JObj [(''state'', JStr ''completed'')]),
       Logged Finished], None)"
    by (simp add: handleStreamingResponse_def stream_response_def loop del: read_loop.simps)
  have blank: "malformed sample_parse []"
    by (simp add: malformed_def trim_empty sample_parse_def sample_documents_def doc_defs)
  let ?chunks = "[frame_text doc_working, frame_text [], frame_text doc_completed]"
  let ?r = "stream_response ?chunks"
  have h1: "ok ?r" and h2: "body ?r = Some (?chunks, Done)"
    by (simp_all add: stream_response_def)
  have crs: "remove_cr (frame_text doc_working) = frame_text doc_working"
      "remove_cr (frame_text []) = frame_text []"
      "remove_cr (frame_text doc_completed) = frame_text doc_completed"
    by (simp_all add: remove_cr_def frame_text_def data_line_def doc_defs)
  have h3: "remove_cr (concat ?chunks) = concat (map frame_text [doc_working, [], doc_completed])"
    by (simp add: remove_cr_append crs)
  have h4: "\<forall>p \<in> set [doc_working, [], doc_completed]. one_line p"
    by (simp add: one_line_docs) (simp add: one_line_def)
  have pm_blank: "process_message sample_parse (data_line []) = []"
    using process_message_malformed[OF blank] by (simp add: trim_empty)
  have run2: "handleStreamingResponse sample_parse ?r =
     ([Yielded (JObj [(''state'', JStr ''working'')]),
       Yielded (JObj [(''state'', JStr ''completed'')]),
       Logged Finished], None)"
    unfolding stream_of_frames[OF h1 h2 h3 h4, of sample_parse]
    by (simp add: process_message_working pm_blank process_message_completed)
  show ?thesis
    by (intro conjI shape carries_working malformed_untagged carries_completed run1 blank run2)
qed

lemma carries_null: "carries_result sample_parse doc_null_result JNull"
  by (simp add: carries_result_def trim_docs docs_nonempty sample_parse_null_result
      val_null_result_def tagged_def)

lemma read_loop_ending:
  "snd (read_loop parse b chunks ending) =
     (case ending of Done \<Rightarrow> None | ReadFailed e \<Rightarrow> Some (Plain e))"
proof (induction chunks arbitrary: b)
  case Nil
  then show ?case
    by (cases ending) simp_all
next
  case (Cons c chunks)
  have "snd (read_loop parse b (c # chunks) ending) =
      snd (read_loop parse (pop_or_empty (split_blank_line (remove_cr (b @ c)))) chunks ending)"
    by (simp add: Let_def split: prod.splits)
  then show ?case
    using Cons.IH by simp
qed

text \<open>
  Whatever the stream holds, the generator never ends by throwing an \<open>RpcError\<close>: it
  only throws the \<open>Error\<close> of line 184 or what a failed read threw.
\<close>

lemma handleStreamingResponse_never_rpc_error:
  "snd (handleStreamingResponse parse r) \<noteq> Some (RpcError c m d)"
proof (cases "if ok r then body r else None")
  case None
  then show ?thesis
    by (simp add: handleStreamingResponse_def)
next
  case (Some stream)
  obtain chunks ending where stream: "stream = (chunks, ending)"
    by (cases stream)
  show ?thesis
    using Some read_loop_ending[of parse "[]" chunks ending]
    by (cases "read_loop parse [] chunks ending")
       (auto simp: handleStreamingResponse_def stream split: option.splits read_end.splits)
qed

text \<open>
  Claim C4. However the text of a stream is cut into chunks, also inside the blank
  line that closes a frame, the generator behaves as on the same text delivered as
  one chunk: the same values are yielded in the same order (with the same console
  output) and the run ends the same way. \<open>TextDecoderStream\<close> turns the chunks of bytes
  into chunks of text whose concatenation is the decoded whole, so the statement on
  text covers the bytes.
\<close>

theorem streaming_chunking_invariant:
  "handleStreamingResponse parse (r\<lparr>body := Some (chunks, ending)\<rparr>) =
   handleStreamingResponse parse (r\<lparr>body := Some ([concat chunks], ending)\<rparr>)"
  using read_loop_concat[of "[]" parse chunks ending]
  by (simp add: handleStreamingResponse_def remove_cr_def)

theorem streaming_chunking_invariant_witness:
  \<open>handleStreamingResponse sample_parse
     ((stream_response [])\<lparr>body := Some ([''data: '' @ doc_working @ ''\<newline>'', ''\<newline>da'',
        ''ta: '' @ doc_completed @ ''\<newline>\<newline>''], Done)\<rparr>) =
   handleStreamingResponse sample_parse
     ((stream_response [])\<lparr>body := Some ([concat [''data: '' @ doc_working @ ''\<newline>'', ''\<newline>da'',
        ''ta: '' @ doc_completed @ ''\<newline>\<newline>'']], Done)\<rparr>) \<and>
   yielded (fst (handleStreamingResponse sample_parse
     ((stream_response [])\<lparr>body := Some ([''data: '' @ doc_working @ ''\<newline>'', ''\<newline>da'',
        ''ta: '' @ doc_completed @ ''\<newline>\<newline>''], Done)\<rparr>))) =
     [JObj [(''state'', JStr ''working'')], JObj [(''state'', JStr ''completed'')]]\<close>
proof -
  let ?chunks = "[''data: '' @ doc_working @ ''\<newline>'', ''\<newline>da'',
        ''ta: '' @ doc_completed @ ''\<newline>\<newline>'']"
  let ?r = "(stream_response [])\<lparr>body := Some (?chunks, Done)\<rparr>"
  have h1: "ok ?r" and h2: "body ?r = Some (?chunks, Done)"
    by (simp_all add: stream_response_def)
  have cr: "remove_cr doc_working = doc_working" "remove_cr doc_completed = doc_completed"
    by (simp_all add: remove_cr_def doc_defs)
  have h3: "remove_cr (concat ?chunks) = concat (map frame_text [doc_working, doc_completed])"
    by (simp add: frame_text_def data_line_def remove_cr_def doc_defs)
  have h4: "\<forall>p \<in> set [doc_working, doc_completed]. one_line p"
    by (simp add: one_line_docs)
  have "yielded (fst (handleStreamingResponse sample_parse ?r)) =
      [JObj [(''state'', JStr ''working'')], JObj [(''state'', JStr ''completed'')]]"
    unfolding stream_of_frames[OF h1 h2 h3 h4, of sample_parse]
    by (simp add: process_message_working process_message_completed)
  then show ?thesis
    using streaming_chunking_invariant[where parse = sample_parse and r = "stream_response []"
        and chunks = ?chunks and ending = Done]
    by simp
qed

text \<open>
  Claim C1, evaluated where it fails. The stream holds three frames: a result, the
  error \<open>{"code":1,"message":"boom"}\<close>, a result. The \<open>RpcError\<close> thrown for the second
  frame (line 233) is caught by the \<open>catch\<close> of line 248, logged as a failure to parse,
  and not thrown again: the generator goes on, yields the result of the third frame
  and completes without raising.
\<close>

theorem streaming_error_frame_swallowed:
  "handleStreamingResponse sample_parse
     (stream_response [frame_text doc_working @ frame_text doc_boom @ frame_text doc_completed]) =
     ([Yielded (JObj [(''state'', JStr ''working'')]),
       Logged (ErrorReceived (JObj [(''code'', JNum 1), (''message'', JStr ''boom'')])),
       Logged (ParseFailed doc_boom (RpcError (JNum 1) (JStr ''boom'') (Data JUndefined))),
       Yielded (JObj [(''state'', JStr ''completed'')]),
       Logged Finished],
      None)"
proof -
  let ?chunks = "[frame_text doc_working @ frame_text doc_boom @ frame_text doc_completed]"
  let ?r = "stream_response ?chunks"
  have h1: "ok ?r" and h2: "body ?r = Some (?chunks, Done)"
    by (simp_all add: stream_response_def)
  have cr: "remove_cr (frame_text doc_working) = frame_text doc_working"
      "remove_cr (frame_text doc_boom) = frame_text doc_boom"
      "remove_cr (frame_text doc_completed) = frame_text doc_completed"
    by (simp_all add: remove_cr_def frame_text_def data_line_def doc_defs)
  have h3: "remove_cr (concat ?chunks) =
      concat (map frame_text [doc_working, doc_boom, doc_completed])"
    by (simp add: remove_cr_append cr)
  have h4: "\<forall>p \<in> set [doc_working, doc_boom, doc_completed]. one_line p"
    by (simp add: one_line_docs)
  show ?thesis
    unfolding stream_of_frames[OF h1 h2 h3 h4, of sample_parse]
    by (simp add: process_message_working process_message_boom process_message_completed)
qed

section \<open>Which messages are decoded\<close>

text \<open>
  Claim C5, as amended. A message that begins with \<open>data: \<close> is processed: the text
  after that prefix, up to the end of the message, is trimmed and, unless nothing is
  left, parsed and decoded as an envelope (so a payload that carries a result makes
  the decoder yield it). A message that does not begin with \<open>data: \<close> produces nothing,
  whatever its later lines are.
\<close>

theorem frame_processed_when_it_begins_with_data:
  "process_message parse (''data: '' @ rest) =
     (if trim rest = [] then []
      else case decode_data_line parse (trim rest) of
             (evs, None) \<Rightarrow> evs
           | (evs, Some e) \<Rightarrow> evs @ [Logged (ParseFailed (trim rest) e)]) \<and>
   (carries_result parse rest res \<longrightarrow> process_message parse (''data: '' @ rest) = [Yielded res]) \<and>
   (\<not> startsWith message ''data: '' \<longrightarrow> process_message parse message = [])"
  using process_message_data[of parse rest] process_message_result[of parse rest res]
  by (simp add: data_line_def process_message_def)

theorem frame_processed_when_it_begins_with_data_witness:
  "carries_result sample_parse doc_working (JObj [(''state'', JStr ''working'')]) \<and>
   process_message sample_parse (''data: '' @ doc_working) =
     [Yielded (JObj [(''state'', JStr ''working'')])] \<and>
   \<not> startsWith event_message ''data: '' \<and>
   process_message sample_parse event_message = []"
proof -
  note inst = frame_processed_when_it_begins_with_data
    [where parse = sample_parse and rest = doc_working
       and res = "JObj [(''state'', JStr ''working'')]"
       and message = "event_message"]
  have other: "\<not> startsWith event_message ''data: ''"
    by (simp add: startsWith_def event_message_def)
  show ?thesis
    by (intro conjI carries_working other
        inst[THEN conjunct2, THEN conjunct1, THEN mp, OF carries_working]
        inst[THEN conjunct2, THEN conjunct2, THEN mp, OF other])
qed

text \<open>
  Claim C5 as the specification states it fails: the frame
  \<open>event: update\<close>, line feed, \<open>data: {"jsonrpc":"2.0","id":"x","result":{"state":"working"}}\<close>
  has a line that begins with \<open>data: \<close> and carries a result, but the decoder tests
  the beginning of the whole message only (line 211) and ignores the frame.
\<close>

theorem frame_with_later_data_line_ignored_counterexample:
  "event_message = ''event: update'' @ [CHR 0x0A] @ data_line doc_working \<and>
   carries_result sample_parse doc_working (JObj [(''state'', JStr ''working'')]) \<and>
   process_message sample_parse event_message = [] \<and>
   handleStreamingResponse sample_parse
     (stream_response [event_message @ [CHR 0x0A, CHR 0x0A]]) =
     ([Logged Finished], None)"
proof -
  have split: "split_blank_line
      (event_message @ [CHR 0x0A, CHR 0x0A]) =
      [event_message, []]"
    by (simp add: event_message_def doc_defs)
  have cr: "remove_cr (event_message @ [CHR 0x0A, CHR 0x0A]) =
      event_message @ [CHR 0x0A, CHR 0x0A]"
    by (simp add: remove_cr_def event_message_def doc_defs)
  have pm: "process_message sample_parse event_message = []"
    by (simp add: process_message_def startsWith_def event_message_def)
  have loop: "read_loop sample_parse []
      [event_message @ [CHR 0x0A, CHR 0x0A]] Done = ([], None)"
    unfolding read_loop_one_chunk append_Nil cr split
    by (simp add: pm trim_empty)
  have shape: "event_message = ''event: update'' @ [CHR 0x0A] @ data_line doc_working"
    by (simp add: event_message_def data_line_def)
  have run: "handleStreamingResponse sample_parse
      (stream_response [event_message @ [CHR 0x0A, CHR 0x0A]]) = ([Logged Finished], None)"
    by (simp add: handleStreamingResponse_def stream_response_def loop del: read_loop.simps)
  show ?thesis
    by (intro conjI shape carries_working pm run)
qed

section \<open>The public streaming methods\<close>

lemma yielded_filter:
  "yielded (filter passes_item_filter evs) =
     filter (\<lambda>item. item \<noteq> JUndefined \<and> item \<noteq> JNull) (yielded evs)"
  by (induction evs rule: yielded.induct) simp_all

lemma subscribe_yields:
  "yielded (fst (sendTaskSubscribe parse fetched)) =
     (case fetched of
        Inl e \<Rightarrow> []
      | Inr r \<Rightarrow> filter (\<lambda>item. item \<noteq> JUndefined \<and> item \<noteq> JNull)
                 (yielded (fst (handleStreamingResponse parse r))))"
  by (simp add: sendTaskSubscribe_def makeHttpRequest_def yielded_filter
      split: sum.splits prod.splits)

lemma resubscribe_yields:
  "yielded (fst (resubscribeTask parse fetched)) =
     (case fetched of
        Inl e \<Rightarrow> []
      | Inr r \<Rightarrow> filter (\<lambda>item. item \<noteq> JUndefined \<and> item \<noteq> JNull)
                 (yielded (fst (handleStreamingResponse parse r))))"
  by (simp add: resubscribeTask_def makeHttpRequest_def yielded_filter
      split: sum.splits prod.splits)

text \<open>
  Claim C10. \<open>sendTaskSubscribe\<close> and \<open>resubscribeTask\<close> never yield \<open>null\<close> or
  \<open>undefined\<close>: what they yield is what \<open>_handleStreamingResponse\<close> yields with the
  \<open>null\<close> and \<open>undefined\<close> items removed. The inner decoder does pass \<open>null\<close> through: a
  frame whose envelope has \<open>"result": null\<close> makes it yield \<open>null\<close>.
\<close>

theorem public_streams_never_yield_null:
  "JNull \<notin> set (yielded (fst (sendTaskSubscribe parse fetched))) \<and>
   JUndefined \<notin> set (yielded (fst (sendTaskSubscribe parse fetched))) \<and>
   JNull \<notin> set (yielded (fst (resubscribeTask parse fetched))) \<and>
   JUndefined \<notin> set (yielded (fst (resubscribeTask parse fetched))) \<and>
   yielded (fst (sendTaskSubscribe parse (Inr r))) =
     filter (\<lambda>item. item \<noteq> JUndefined \<and> item \<noteq> JNull)
       (yielded (fst (handleStreamingResponse parse r))) \<and>
   yielded (fst (resubscribeTask parse (Inr r))) =
     filter (\<lambda>item. item \<noteq> JUndefined \<and> item \<noteq> JNull)
       (yielded (fst (handleStreamingResponse parse r))) \<and>
   (carries_result parse payload JNull \<longrightarrow>
      process_message parse (''data: '' @ payload) = [Yielded JNull])"
  using process_message_result[of parse payload JNull]
  by (simp add: subscribe_yields resubscribe_yields data_line_def split: sum.splits)

theorem public_streams_never_yield_null_witness:
  "carries_result sample_parse doc_null_result JNull \<and>
   process_message sample_parse (''data: '' @ doc_null_result) = [Yielded JNull] \<and>
   yielded (fst (handleStreamingResponse sample_parse
     (stream_response [frame_text doc_working, frame_text doc_null_result]))) =
     [JObj [(''state'', JStr ''working'')], JNull] \<and>
   yielded (fst (sendTaskSubscribe sample_parse
     (Inr (stream_response [frame_text doc_working, frame_text doc_null_result])))) =
     [JObj [(''state'', JStr ''working'')]] \<and>
   yielded (fst (resubscribeTask sample_parse
     (Inr (stream_response [frame_text doc_working, frame_text doc_null_result])))) =
     [JObj [(''state'', JStr ''working'')]]"
proof -
  let ?chunks = "[frame_text doc_working, frame_text doc_null_result]"
  let ?r = "stream_response ?chunks"
  have h1: "ok ?r" and h2: "body ?r = Some (?chunks, Done)"
    by (simp_all add: stream_response_def)
  have cr: "remove_cr (frame_text doc_working) = frame_text doc_working"
      "remove_cr (frame_text doc_null_result) = frame_text doc_null_result"
    by (simp_all add: remove_cr_def frame_text_def data_line_def doc_defs)
  have h3: "remove_cr (concat ?chunks) = concat (map frame_text [doc_working, doc_null_result])"
    by (simp add: remove_cr_append cr)
  have h4: "\<forall>p \<in> set [doc_working, doc_null_result]. one_line p"
    by (simp add: one_line_docs)
  have inner: "yielded (fst (handleStreamingResponse sample_parse ?r)) =
      [JObj [(''state'', JStr ''working'')], JNull]"
    unfolding stream_of_frames[OF h1 h2 h3 h4, of sample_parse]
    by (simp add: process_message_working process_message_result[OF carries_null])
  show ?thesis
    using public_streams_never_yield_null
      [where parse = sample_parse and r = ?r and payload = doc_null_result and fetched = "Inr ?r"]
      carries_null
    by (simp add: inner)
qed

section \<open>The cached agent card\<close>

lemma agentCard_cached:
  "truthy (cachedAgentCard this) \<Longrightarrow> agentCard fetchImpl this = (Inr (cachedAgentCard this), this)"
  by (simp add: agentCard_def)

lemma agentCard_success:
  assumes "agentCard fetchImpl this = (Inr c, this')"
  shows "cachedAgentCard this' = c"
    and "\<not> truthy (cachedAgentCard this) \<Longrightarrow>
           requests this' = requests this @ [baseUrl this @ ''/agent-card'']"
    and "truthy (cachedAgentCard this) \<Longrightarrow> this' = this"
  using assms by (auto simp: agentCard_def Let_def split: if_splits sum.splits)

lemma agentCard_repeat:
  assumes "truthy (cachedAgentCard this)"
  shows "((\<lambda>c. snd (agentCard fetchImpl c)) ^^ n) this = this"
  by (induction n) (simp_all add: agentCard_cached[OF assms])

text \<open>
  Claim C8, as amended. Once a call of \<open>agentCard\<close> has succeeded with a truthy card
  (every JSON object is truthy), each later call on that client returns the same
  card and leaves the client as it is, so it fetches nothing, however many calls
  came between. If the cache was empty before the first call, that call made one
  request, and the first and the second call together made exactly that one.
\<close>

theorem agentCard_cached_after_truthy_card:
  assumes "agentCard fetchImpl this = (Inr c, this')" and "truthy c"
  shows "agentCard fetchImpl this' = (Inr c, this') \<and>
         agentCard fetchImpl (((\<lambda>s. snd (agentCard fetchImpl s)) ^^ n) this') = (Inr c, this') \<and>
         (\<not> truthy (cachedAgentCard this) \<longrightarrow>
            requests this' = requests this @ [baseUrl this @ ''/agent-card''] \<and>
            requests (snd (agentCard fetchImpl this')) =
              requests this @ [baseUrl this @ ''/agent-card''])"
proof -
  have cached: "cachedAgentCard this' = c"
    using assms(1) by (rule agentCard_success(1))
  then have hit: "truthy (cachedAgentCard this')"
    using assms(2) by simp
  have again: "agentCard fetchImpl this' = (Inr c, this')"
    using agentCard_cached[OF hit, of fetchImpl] cached by simp
  show ?thesis
    using again agentCard_repeat[OF hit, where fetchImpl = fetchImpl and n = n]
      agentCard_success(2)[OF assms(1)]
    by simp
qed

lemma first_card_call:
  "agentCard (card_fetch v) (new_client ''http://agent.example/'') =
     (Inr v, \<lparr>baseUrl = ''http://agent.example'', cachedAgentCard = v,
              requests = [''http://agent.example/agent-card'']\<rparr>)"
  by (simp add: agentCard_def new_client_def fetch_card_def card_fetch_def)

theorem agentCard_cached_after_truthy_card_witness:
  "agentCard (card_fetch val_card) (new_client ''http://agent.example/'') =
     (Inr val_card, \<lparr>baseUrl = ''http://agent.example'', cachedAgentCard = val_card,
              requests = [''http://agent.example/agent-card'']\<rparr>) \<and>
   truthy val_card \<and>
   agentCard (card_fetch val_card)
     \<lparr>baseUrl = ''http://agent.example'', cachedAgentCard = val_card,
      requests = [''http://agent.example/agent-card'']\<rparr> =
     (Inr val_card, \<lparr>baseUrl = ''http://agent.example'', cachedAgentCard = val_card,
              requests = [''http://agent.example/agent-card'']\<rparr>) \<and>
   requests (snd (agentCard (card_fetch val_card)
     \<lparr>baseUrl = ''http://agent.example'', cachedAgentCard = val_card,
      requests = [''http://agent.example/agent-card'']\<rparr>)) = [''http://agent.example/agent-card'']"
proof -
  have t: "truthy val_card"
    by (simp add: val_card_def)
  note inst = agentCard_cached_after_truthy_card[OF first_card_call[of val_card] t, where n = 0]
  have fresh: "\<not> truthy (cachedAgentCard (new_client ''http://agent.example/''))"
    by (simp add: new_client_def)
  have "requests (snd (agentCard (card_fetch val_card)
     \<lparr>baseUrl = ''http://agent.example'', cachedAgentCard = val_card,
      requests = [''http://agent.example/agent-card'']\<rparr>)) =
      requests (new_client ''http://agent.example/'') @
        [baseUrl (new_client ''http://agent.example/'') @ ''/agent-card'']"
    using inst[THEN conjunct2, THEN conjunct2, THEN mp, OF fresh] by (rule conjunct2)
  then have reqs: "requests (snd (agentCard (card_fetch val_card)
     \<lparr>baseUrl = ''http://agent.example'', cachedAgentCard = val_card,
      requests = [''http://agent.example/agent-card'']\<rparr>)) = [''http://agent.example/agent-card'']"
    by (simp add: new_client_def)
  show ?thesis
    by (intro conjI first_card_call t inst[THEN conjunct1] reqs)
qed

text \<open>
  Claim C8 as the specification states it fails: when the server answers the card
  request with the JSON text \<open>null\<close>, the first call succeeds and returns \<open>null\<close>, the
  cache holds \<open>null\<close> as before, and the second call requests the card again.
\<close>

theorem agentCard_null_card_fetched_again_counterexample:
  "fst (agentCard (card_fetch JNull) (new_client ''http://agent.example/'')) = Inr JNull \<and>
   requests (snd (agentCard (card_fetch JNull) (new_client ''http://agent.example/''))) =
     [''http://agent.example/agent-card''] \<and>
   fst (agentCard (card_fetch JNull)
         (snd (agentCard (card_fetch JNull) (new_client ''http://agent.example/'')))) = Inr JNull \<and>
   requests (snd (agentCard (card_fetch JNull)
         (snd (agentCard (card_fetch JNull) (new_client ''http://agent.example/''))))) =
     [''http://agent.example/agent-card'', ''http://agent.example/agent-card'']"
  by (simp add: first_card_call) (simp add: agentCard_def fetch_card_def card_fetch_def)

lemma capability_flag_value:
  "capability_flag c capability =
     (if c = JNull \<or> c = JUndefined
      then (if capability = ''streaming'' \<or> capability = ''pushNotifications''
            then Inl (ErrorInstance ''TypeError'') else Inr False)
      else Inr ((capability = ''streaming'' \<or> capability = ''pushNotifications'') \<and>
                truthy (get_prop (get_prop c ''capabilities'') capability)))"
  by (cases "get_prop c ''capabilities''")
     (auto simp: capability_flag_def get_member_def optional_prop_def)

text \<open>
  Claim C9. \<open>supports\<close> always returns a boolean and never raises. It returns \<open>false\<close>
  when \<open>agentCard\<close> fails. When \<open>agentCard\<close> succeeds with a card, it returns the truth
  value of \<open>card.capabilities.streaming\<close> or \<open>card.capabilities.pushNotifications\<close>
  for the two capabilities of its signature (a missing card, map or flag counts
  as \<open>false\<close>), and \<open>false\<close> for any other string.
\<close>

theorem supports_never_raises:
  "(\<exists>flag. fst (supports fetchImpl capability this) = Inr flag) \<and>
   (\<forall>e. fst (agentCard fetchImpl this) = Inl e \<longrightarrow>
        fst (supports fetchImpl capability this) = Inr False) \<and>
   (\<forall>c. fst (agentCard fetchImpl this) = Inr c \<longrightarrow>
        fst (supports fetchImpl capability this) =
          Inr ((capability = ''streaming'' \<or> capability = ''pushNotifications'') \<and>
               truthy (get_prop (get_prop c ''capabilities'') capability)))"
proof -
  obtain res this' where call: "agentCard fetchImpl this = (res, this')"
    by (cases "agentCard fetchImpl this")
  show ?thesis
  proof (cases res)
    case (Inl e)
    with call show ?thesis
      by (auto simp: supports_def)
  next
    case (Inr c)
    with call show ?thesis
      by (cases "c = JNull \<or> c = JUndefined")
         (auto simp: supports_def capability_flag_value split: sum.splits)
  qed
qed

lemma failing_card_call:
  "fst (agentCard failing_fetch (new_client ''http://agent.example'')) =
     Inl (RpcError (JNum (- 32603)) (JStr ''Could not retrieve agent card: fetch failed'')
            (Cause (ErrorInstance ''fetch failed'')))"
  by (simp add: agentCard_def new_client_def fetch_card_def failing_fetch_def)

theorem supports_never_raises_witness:
  "fst (agentCard failing_fetch (new_client ''http://agent.example'')) =
     Inl (RpcError (JNum (- 32603)) (JStr ''Could not retrieve agent card: fetch failed'')
            (Cause (ErrorInstance ''fetch failed''))) \<and>
   fst (supports failing_fetch ''streaming'' (new_client ''http://agent.example'')) = Inr False \<and>
   fst (agentCard (card_fetch val_card) (new_client ''http://agent.example/'')) = Inr val_card \<and>
   fst (supports (card_fetch val_card) ''streaming'' (new_client ''http://agent.example/'')) =
     Inr True \<and>
   fst (supports (card_fetch val_card) ''pushNotifications'' (new_client ''http://agent.example/'')) =
     Inr False"
proof -
  have card_call: "fst (agentCard (card_fetch val_card) (new_client ''http://agent.example/'')) =
      Inr val_card"
    by (simp add: first_card_call)
  have failed: "fst (supports failing_fetch ''streaming'' (new_client ''http://agent.example'')) =
      Inr False"
    using supports_never_raises[where fetchImpl = failing_fetch and capability = "''streaming''"
        and this = "new_client ''http://agent.example''",
        THEN conjunct2, THEN conjunct1, THEN spec, THEN mp, OF failing_card_call] .
  have streaming: "fst (supports (card_fetch val_card) ''streaming''
      (new_client ''http://agent.example/'')) = Inr True"
    using supports_never_raises[where fetchImpl = "card_fetch val_card"
        and capability = "''streaming''" and this = "new_client ''http://agent.example/''",
        THEN conjunct2, THEN conjunct2, THEN spec, THEN mp, OF card_call]
    by (simp add: val_card_def)
  have push: "fst (supports (card_fetch val_card) ''pushNotifications''
      (new_client ''http://agent.example/'')) = Inr False"
    using supports_never_raises[where fetchImpl = "card_fetch val_card"
        and capability = "''pushNotifications''" and this = "new_client ''http://agent.example/''",
        THEN conjunct2, THEN conjunct2, THEN spec, THEN mp, OF card_call]
    by (simp add: val_card_def)
  show ?thesis
    by (intro conjI failing_card_call failed card_call streaming push)
qed

end
